theory Spec2Isabelle
  imports Complex_Main
begin

section \<open>JavaScript numbers\<close>

text \<open>
  A JavaScript number is an IEEE double. The model keeps the special values (the two
  infinities and NaN) and computes on the finite values with exact real arithmetic:
  rounding, overflow and underflow are not modelled, and zero is unsigned (a zero
  divisor is read as +0, which is what \<open>Math.sqrt\<close> and a sum of squares produce).
\<close>

datatype jsnum = Num real | PInf | NInf | NaN

fun js_neg :: "jsnum \<Rightarrow> jsnum" where
  "js_neg (Num a) = Num (- a)"
| "js_neg PInf = NInf"
| "js_neg NInf = PInf"
| "js_neg NaN = NaN"

fun js_add :: "jsnum \<Rightarrow> jsnum \<Rightarrow> jsnum" where
  "js_add (Num a) (Num b) = Num (a + b)"
| "js_add NaN _ = NaN"
| "js_add _ NaN = NaN"
| "js_add PInf NInf = NaN"
| "js_add NInf PInf = NaN"
| "js_add PInf _ = PInf"
| "js_add _ PInf = PInf"
| "js_add NInf _ = NInf"
| "js_add _ NInf = NInf"

definition js_sub :: "jsnum \<Rightarrow> jsnum \<Rightarrow> jsnum" where
  "js_sub a b = js_add a (js_neg b)"

text \<open>The sign of a product with an infinite factor; zero times infinity is NaN.\<close>

definition signed_inf :: "real \<Rightarrow> jsnum \<Rightarrow> jsnum" where
  "signed_inf a i = (if a = 0 then NaN else if 0 < a then i else js_neg i)"

fun js_mul :: "jsnum \<Rightarrow> jsnum \<Rightarrow> jsnum" where
  "js_mul (Num a) (Num b) = Num (a * b)"
| "js_mul NaN _ = NaN"
| "js_mul _ NaN = NaN"
| "js_mul (Num a) PInf = signed_inf a PInf"
| "js_mul (Num a) NInf = signed_inf a NInf"
| "js_mul PInf (Num b) = signed_inf b PInf"
| "js_mul NInf (Num b) = signed_inf b NInf"
| "js_mul PInf PInf = PInf"
| "js_mul PInf NInf = NInf"
| "js_mul NInf PInf = NInf"
| "js_mul NInf NInf = PInf"

fun js_div :: "jsnum \<Rightarrow> jsnum \<Rightarrow> jsnum" where
  "js_div (Num a) (Num b) = (if b = 0 then signed_inf a PInf else Num (a / b))"
| "js_div NaN _ = NaN"
| "js_div _ NaN = NaN"
| "js_div (Num a) PInf = Num 0"
| "js_div (Num a) NInf = Num 0"
| "js_div PInf (Num b) = (if 0 \<le> b then PInf else NInf)"
| "js_div NInf (Num b) = (if 0 \<le> b then NInf else PInf)"
| "js_div PInf PInf = NaN"
| "js_div PInf NInf = NaN"
| "js_div NInf PInf = NaN"
| "js_div NInf NInf = NaN"

text \<open>The comparisons \<open><\<close> and \<open>>\<close>: false as soon as one side is NaN.\<close>

fun js_lt :: "jsnum \<Rightarrow> jsnum \<Rightarrow> bool" where
  "js_lt (Num a) (Num b) = (a < b)"
| "js_lt NaN _ = False"
| "js_lt _ NaN = False"
| "js_lt _ NInf = False"
| "js_lt PInf _ = False"
| "js_lt NInf _ = True"
| "js_lt _ PInf = True"

definition js_gt :: "jsnum \<Rightarrow> jsnum \<Rightarrow> bool" where
  "js_gt a b = js_lt b a"

text \<open>\<open>Math.max\<close> and \<open>Math.min\<close> of two arguments: NaN as soon as one is NaN.\<close>

definition Math_max :: "jsnum \<Rightarrow> jsnum \<Rightarrow> jsnum" where
  "Math_max a b = (if a = NaN \<or> b = NaN then NaN else if js_lt a b then b else a)"

definition Math_min :: "jsnum \<Rightarrow> jsnum \<Rightarrow> jsnum" where
  "Math_min a b = (if a = NaN \<or> b = NaN then NaN else if js_lt b a then b else a)"

fun Math_sqrt :: "jsnum \<Rightarrow> jsnum" where
  "Math_sqrt (Num a) = (if a < 0 then NaN else Num (sqrt a))"
| "Math_sqrt PInf = PInf"
| "Math_sqrt NInf = NaN"
| "Math_sqrt NaN = NaN"

fun Math_sin :: "jsnum \<Rightarrow> jsnum" where
  "Math_sin (Num a) = Num (sin a)"
| "Math_sin _ = NaN"

fun Math_cos :: "jsnum \<Rightarrow> jsnum" where
  "Math_cos (Num a) = Num (cos a)"
| "Math_cos _ = NaN"

text \<open>Truthiness of a number: 0 and NaN are falsy.\<close>

fun truthy :: "jsnum \<Rightarrow> bool" where
  "truthy (Num a) = (a \<noteq> 0)"
| "truthy NaN = False"
| "truthy _ = True"

section \<open>The data of the gallery\<close>

text \<open>
  The \<open>img\<close> element of a particle, as far as the gallery writes it: its source (absent
  when the image list has no such entry) and the transform that \<open>animate\<close> writes, the
  pixel translation (absent until the first frame) and the rotation in degrees.
\<close>

record element =
  src :: "string option"
  translate :: "(jsnum \<times> jsnum) option"
  rotate :: jsnum

text \<open>
  A particle (the object literal of \<open>createPhoto\<close>). The fields \<open>x\<close>, \<open>y\<close> and \<open>size\<close> of
  the source are \<open>posX\<close>, \<open>posY\<close> and \<open>photoSize\<close> here.
\<close>

record photo =
  element :: element
  posX :: jsnum
  posY :: jsnum
  baseX :: jsnum
  baseY :: jsnum
  velocityX :: jsnum
  velocityY :: jsnum
  photoSize :: jsnum
  rotation :: jsnum
  rotationSpeed :: jsnum

datatype mount = DocumentBody | MountNode nat

text \<open>
  The options object of the constructor, for numeric options: \<open>None\<close> is an option that
  is absent (\<open>undefined\<close>).
\<close>

record options =
  opt_images :: "string list option"
  opt_count :: "jsnum option"
  opt_size :: "jsnum option"
  opt_opacity :: "jsnum option"
  opt_blur :: "jsnum option"
  opt_driftSpeed :: "jsnum option"
  opt_mouseInfluence :: "jsnum option"
  opt_mobileScrollInfluence :: "jsnum option"
  opt_container :: "mount option"
  opt_zIndex :: "jsnum option"

record gallery_config =
  images :: "string list"
  count :: jsnum
  sizePx :: jsnum
  opacity :: jsnum
  blur :: jsnum
  driftSpeed :: jsnum
  mouseInfluence :: jsnum
  mobileScrollInfluence :: jsnum
  container :: mount
  zIndex :: jsnum

text \<open>
  Event listeners are function objects, compared by identity: the three arrow functions
  that \<open>setupMouseTracking\<close>, \<open>setupScrollTracking\<close> and \<open>init\<close> create, and the method
  \<open>handleResize\<close> of the class.
\<close>

datatype listener = MouseMoveArrow | ScrollArrow | ResizeArrow | HandleResizeMethod

datatype target = Window | Document

text \<open>
  The gallery object together with the part of the browser it acts on.
  \<^item> \<open>config\<close> to \<open>rafId\<close> are the fields of the object; \<open>rafId\<close> is \<open>None\<close> for \<open>null\<close>.
  \<^item> \<open>mounted\<close> says whether \<open>galleryContainer\<close> is a child of \<open>config.container\<close>;
    \<open>children\<close> lists the particles (by index in \<open>photos\<close>) whose element is a child of
    \<open>galleryContainer\<close>.
  \<^item> \<open>innerWidth\<close>, \<open>innerHeight\<close> are the window's; \<open>listeners\<close> the registered event
    listeners; \<open>pending\<close> the handles of the animation frame callbacks that are
    scheduled, every one of them \<open>() => this.animate()\<close>; \<open>lastHandle\<close> the last handle
    \<open>requestAnimationFrame\<close> returned; \<open>rng\<close> the number of calls of \<open>Math.random\<close>
    so far.
\<close>

record gallery =
  config :: gallery_config
  isMobile :: bool
  mouseX :: real
  mouseY :: real
  scrollY :: real
  photos :: "photo list"
  rafId :: "nat option"
  mounted :: bool
  children :: "nat list"
  innerWidth :: nat
  innerHeight :: nat
  listeners :: "(target \<times> string \<times> listener) list"
  pending :: "nat list"
  lastHandle :: nat
  rng :: nat

section \<open>The frame update\<close>

text \<open>
  The summand of \<open>finalY += scrollInfluence * this.config.mobileScrollInfluence * 100\<close>
  in the mobile branch of \<open>animate\<close>, for the particle of the given index: the
  operations of the source in their order, each on exact values where the source rounds
  to a double.
\<close>

definition scroll_offset :: "gallery \<Rightarrow> nat \<Rightarrow> jsnum" where
  "scroll_offset st index =
    (let scrollInfluence =
           js_mul (Math_sin (js_add (js_mul (Num (scrollY st)) (Num 0.01))
                                    (Num (real index)))) (Num 20)
     in js_mul (js_mul scrollInfluence (mobileScrollInfluence (config st))) (Num 100))"

text \<open>The body of the \<open>forEach\<close> of \<open>animate\<close>, for one particle and its index.\<close>

definition animate_photo :: "gallery \<Rightarrow> photo \<Rightarrow> nat \<Rightarrow> photo" where
  "animate_photo st p index =
    (let bx0 = js_add (baseX p) (velocityX p);
         by0 = js_add (baseY p) (velocityY p);
         rot = js_add (rotation p) (rotationSpeed p);
         margin = Num 50;
         xmax = js_sub (Num (real (innerWidth st))) margin;
         ymax = js_sub (Num (real (innerHeight st))) margin;
         hitX = (js_lt bx0 margin \<or> js_gt bx0 xmax);
         vx = (if hitX then js_mul (velocityX p) (Num (- 1)) else velocityX p);
         bx = (if hitX then Math_max margin (Math_min xmax bx0) else bx0);
         hitY = (js_lt by0 margin \<or> js_gt by0 ymax);
         vy = (if hitY then js_mul (velocityY p) (Num (- 1)) else velocityY p);
         by = (if hitY then Math_max margin (Math_min ymax by0) else by0);
         final =
           (if \<not> isMobile st then
              (let dx = js_sub bx (Num (mouseX st));
                   dy = js_sub by (Num (mouseY st));
                   distance = Math_sqrt (js_add (js_mul dx dx) (js_mul dy dy));
                   maxDistance = Num 300
               in if js_lt distance maxDistance then
                    (let influence = js_mul (js_sub (Num 1) (js_div distance maxDistance)) (Num 30)
                     in (js_add bx (js_mul (js_mul (js_mul (js_div dx distance) influence)
                                      (mouseInfluence (config st))) (Num 100)),
                         js_add by (js_mul (js_mul (js_mul (js_div dy distance) influence)
                                      (mouseInfluence (config st))) (Num 100))))
                  else (bx, by))
            else (bx, js_add by (scroll_offset st index)))
     in p\<lparr>baseX := bx, baseY := by, velocityX := vx, velocityY := vy, rotation := rot,
           element := (element p)\<lparr>translate := Some final, rotate := rot\<rparr>\<rparr>)"

text \<open>\<open>requestAnimationFrame\<close>: a fresh handle, greater than zero, and the callback scheduled.\<close>

definition requestAnimationFrame :: "gallery \<Rightarrow> nat \<times> gallery" where
  "requestAnimationFrame st =
    (let h = lastHandle st + 1
     in (h, st\<lparr>pending := pending st @ [h], lastHandle := h\<rparr>))"

definition cancelAnimationFrame :: "nat \<Rightarrow> gallery \<Rightarrow> gallery" where
  "cancelAnimationFrame h st = st\<lparr>pending := removeAll h (pending st)\<rparr>"

definition animate :: "gallery \<Rightarrow> gallery" where
  "animate st =
    (let ps = map (\<lambda>(index, p). animate_photo st p index)
                  (zip [0 ..< length (photos st)] (photos st));
         (h, st') = requestAnimationFrame (st\<lparr>photos := ps\<rparr>)
     in st'\<lparr>rafId := Some h\<rparr>)"

section \<open>Construction\<close>

text \<open>\<open>v || d\<close> for a numeric option: the default replaces an absent or falsy value.\<close>

definition or_default :: "jsnum option \<Rightarrow> jsnum \<Rightarrow> jsnum" where
  "or_default v d = (case v of None \<Rightarrow> d | Some x \<Rightarrow> if truthy x then x else d)"

text \<open>
  The object literal \<open>this.config\<close> of the constructor. An array and a DOM node are truthy,
  so only an absent \<open>images\<close> or \<open>container\<close> takes its default.
\<close>

definition constructor_config :: "options \<Rightarrow> gallery_config" where
  "constructor_config opts =
    \<lparr>images = (case opt_images opts of None \<Rightarrow> [] | Some xs \<Rightarrow> xs),
     count = or_default (opt_count opts) (Num 6),
     sizePx = or_default (opt_size opts) (Num 70),
     opacity = or_default (opt_opacity opts) (Num 0.25),
     blur = or_default (opt_blur opts) (Num 1),
     driftSpeed = or_default (opt_driftSpeed opts) (Num 0.3),
     mouseInfluence = or_default (opt_mouseInfluence opts) (Num 0.05),
     mobileScrollInfluence = or_default (opt_mobileScrollInfluence opts) (Num 0.02),
     container = (case opt_container opts of None \<Rightarrow> DocumentBody | Some c \<Rightarrow> c),
     zIndex = or_default (opt_zIndex opts) (Num (- 1))\<rparr>"

text \<open>\<open>window.matchMedia('(max-width: 768px)').matches\<close>, for a window of the given width.\<close>

definition matchMedia_mobile :: "nat \<Rightarrow> bool" where
  "matchMedia_mobile w = (w \<le> 768)"

text \<open>\<open>isInCenterZone\<close>, in a window of width \<open>w\<close> and height \<open>h\<close>.\<close>

definition isInCenterZone :: "nat \<Rightarrow> nat \<Rightarrow> real \<Rightarrow> real \<Rightarrow> real \<Rightarrow> bool" where
  "isInCenterZone w h x y radius =
    (let centerX = real w / 2;
         centerY = real h / 2;
         distance = sqrt ((x - centerX)\<^sup>2 + (y - centerY)\<^sup>2)
     in distance < radius)"

text \<open>
  The \<open>do ... while\<close> of \<open>createPhoto\<close>. \<open>Math.random\<close> is a sequence \<open>rnd\<close> of numbers,
  read at the position \<open>rng\<close> of the state. The loop draws until a position lies outside
  the centre zone, which may never happen: not returning is the value \<open>None\<close>.
\<close>

partial_function (option) random_position ::
    "(nat \<Rightarrow> real) \<Rightarrow> gallery \<Rightarrow> (real \<times> real \<times> gallery) option" where
  "random_position rnd st =
    (let x = 100 + rnd (rng st) * (real (innerWidth st) - 100 - 100);
         y = 100 + rnd (rng st + 1) * (real (innerHeight st) - 100 - 100);
         st' = st\<lparr>rng := rng st + 2\<rparr>
     in if isInCenterZone (innerWidth st) (innerHeight st) x y 200
        then random_position rnd st' else Some (x, y, st'))"

text \<open>
  \<open>this.config.images[index % this.config.images.length]\<close>; on an empty list the index is
  NaN and the read gives \<open>undefined\<close>, which is \<open>None\<close> here.
\<close>

definition image_at :: "gallery_config \<Rightarrow> nat \<Rightarrow> string option" where
  "image_at cfg index =
    (if images cfg = [] then None else Some (images cfg ! (index mod length (images cfg))))"

definition createPhoto :: "(nat \<Rightarrow> real) \<Rightarrow> gallery \<Rightarrow> nat \<Rightarrow> (photo \<times> gallery) option" where
  "createPhoto rnd st index =
    (case random_position rnd st of
       None \<Rightarrow> None
     | Some (x, y, st1) \<Rightarrow>
        (let k = rng st1;
             img_src = image_at (config st) index;
             angle = rnd k * pi * 2;
             speed = js_mul (driftSpeed (config st)) (Num (0.5 + rnd (k + 1) * 0.5));
             rot = Num (rnd (k + 3) * 20 - 10);
             p = \<lparr>element = \<lparr>src = img_src, translate = None, rotate = rot\<rparr>,
                  posX = Num x, posY = Num y, baseX = Num x, baseY = Num y,
                  velocityX = js_mul (Math_cos (Num angle)) speed,
                  velocityY = js_mul (Math_sin (Num angle)) speed,
                  photoSize = js_mul (sizePx (config st)) (Num (0.8 + rnd (k + 2) * 0.4)),
                  rotation = rot,
                  rotationSpeed = Num ((rnd (k + 4) - 0.5) * 0.2)\<rparr>
         in Some (p, st1\<lparr>rng := k + 5\<rparr>)))"

text \<open>The \<open>for\<close> loop of \<open>createPhotos\<close>, from the index \<open>i\<close> on.\<close>

partial_function (option) createPhotos_loop ::
    "(nat \<Rightarrow> real) \<Rightarrow> jsnum \<Rightarrow> nat \<Rightarrow> gallery \<Rightarrow> gallery option" where
  "createPhotos_loop rnd imageCount i st =
    (if js_lt (Num (real i)) imageCount then
       (case createPhoto rnd st i of
          None \<Rightarrow> None
        | Some (p, st1) \<Rightarrow>
            createPhotos_loop rnd imageCount (i + 1)
              (st1\<lparr>photos := photos st1 @ [p], children := children st1 @ [i]\<rparr>))
     else Some st)"

definition createPhotos :: "(nat \<Rightarrow> real) \<Rightarrow> gallery \<Rightarrow> gallery option" where
  "createPhotos rnd st =
    (let imageCount = Math_min (count (config st)) (Num (real (length (images (config st)))))
     in createPhotos_loop rnd imageCount 0 st)"

text \<open>
  \<open>addEventListener\<close> ignores a listener that is registered already; \<open>removeEventListener\<close>
  removes the listener that is the given function object, and nothing when there is none.
\<close>

definition addEventListener :: "target \<Rightarrow> string \<Rightarrow> listener \<Rightarrow> gallery \<Rightarrow> gallery" where
  "addEventListener tgt ty l st =
    (if (tgt, ty, l) \<in> set (listeners st) then st
     else st\<lparr>listeners := listeners st @ [(tgt, ty, l)]\<rparr>)"

definition removeEventListener :: "target \<Rightarrow> string \<Rightarrow> listener \<Rightarrow> gallery \<Rightarrow> gallery" where
  "removeEventListener tgt ty l st = st\<lparr>listeners := removeAll (tgt, ty, l) (listeners st)\<rparr>"

definition setupMouseTracking :: "gallery \<Rightarrow> gallery" where
  "setupMouseTracking st = addEventListener Document ''mousemove'' MouseMoveArrow st"

definition setupScrollTracking :: "gallery \<Rightarrow> gallery" where
  "setupScrollTracking st = addEventListener Window ''scroll'' ScrollArrow st"

definition init :: "(nat \<Rightarrow> real) \<Rightarrow> gallery \<Rightarrow> gallery option" where
  "init rnd st =
    (case createPhotos rnd (st\<lparr>mounted := True\<rparr>) of
       None \<Rightarrow> None
     | Some st1 \<Rightarrow>
        (let st2 = (if \<not> isMobile st1 then setupMouseTracking st1 else setupScrollTracking st1);
             st3 = animate st2
         in Some (addEventListener Window ''resize'' ResizeArrow st3)))"

text \<open>
  \<open>new FloatingGallery(options)\<close> in a window of the given size, with no listener and no
  animation frame callback of the gallery registered before.
\<close>

definition construct :: "(nat \<Rightarrow> real) \<Rightarrow> nat \<Rightarrow> nat \<Rightarrow> options \<Rightarrow> gallery option" where
  "construct rnd w h opts =
    init rnd
      \<lparr>config = constructor_config opts,
       isMobile = matchMedia_mobile w,
       mouseX = real w / 2,
       mouseY = real h / 2,
       scrollY = 0,
       photos = [],
       rafId = None,
       mounted = False,
       children = [],
       innerWidth = w,
       innerHeight = h,
       listeners = [],
       pending = [],
       lastHandle = 0,
       rng = 0\<rparr>"

section \<open>Control of the frame loop\<close>

text \<open>The test \<open>if (this.rafId)\<close>: \<open>null\<close> and the number 0 are falsy.\<close>

definition rafId_truthy :: "gallery \<Rightarrow> bool" where
  "rafId_truthy st = (case rafId st of None \<Rightarrow> False | Some h \<Rightarrow> h \<noteq> 0)"

definition pause :: "gallery \<Rightarrow> gallery" where
  "pause st =
    (case rafId st of
       None \<Rightarrow> st
     | Some h \<Rightarrow> if h \<noteq> 0 then (cancelAnimationFrame h st)\<lparr>rafId := None\<rparr> else st)"

definition resume :: "gallery \<Rightarrow> gallery" where
  "resume st = (if \<not> rafId_truthy st then animate st else st)"

definition destroy :: "gallery \<Rightarrow> gallery" where
  "destroy st =
    (let st1 = (case rafId st of
                  None \<Rightarrow> st
                | Some h \<Rightarrow> if h \<noteq> 0 then cancelAnimationFrame h st else st);
         st2 = st1\<lparr>mounted := False\<rparr>
     in removeEventListener Window ''resize'' HandleResizeMethod st2)"

text \<open>
  The browser runs the animation frame callbacks: it takes the scheduled callbacks, empties
  the list and calls each of them, and each is \<open>() => this.animate()\<close>.
\<close>

definition run_frame :: "gallery \<Rightarrow> gallery" where
  "run_frame st = fold (\<lambda>h s. animate s) (pending st) (st\<lparr>pending := []\<rparr>)"

datatype event = Pause | Resume | Frame

fun step :: "event \<Rightarrow> gallery \<Rightarrow> gallery" where
  "step Pause st = pause st"
| "step Resume st = resume st"
| "step Frame st = run_frame st"

definition run :: "event list \<Rightarrow> gallery \<Rightarrow> gallery" where
  "run evs st = fold step evs st"

section \<open>Notions the properties are stated with\<close>


fun is_finite :: "jsnum \<Rightarrow> bool" where
  "is_finite (Num a) = True"
| "is_finite _ = False"


text \<open>A particle whose base position is a finite number and whose velocity is not NaN.\<close>

definition drifting :: "photo \<Rightarrow> bool" where
  "drifting p =
    (is_finite (baseX p) \<and> is_finite (baseY p) \<and> velocityX p \<noteq> NaN \<and> velocityY p \<noteq> NaN)"

text \<open>
  What \<open>animate\<close> makes of one advanced coordinate \<open>b\<close> in a window of extent \<open>w\<close>: the
  expression that \<open>animate_photo\<close> has once for each axis.
\<close>

definition bounce :: "nat \<Rightarrow> jsnum \<Rightarrow> jsnum" where
  "bounce w b =
    (if js_lt b (Num 50) \<or> js_gt b (js_sub (Num (real w)) (Num 50))
     then Math_max (Num 50) (Math_min (js_sub (Num (real w)) (Num 50)) b)
     else b)"

text \<open>
  The pair of random numbers at the positions \<open>k\<close> and \<open>k + 1\<close> gives a position outside
  the centre zone, so that the loop of \<open>createPhoto\<close> ends there. A sequence is \<open>fair\<close>
  when, from every position on, some later pair does.
\<close>

definition lands :: "(nat \<Rightarrow> real) \<Rightarrow> nat \<Rightarrow> nat \<Rightarrow> nat \<Rightarrow> bool" where
  "lands rnd w h k =
    (\<not> isInCenterZone w h (100 + rnd k * (real w - 100 - 100))
                          (100 + rnd (k + 1) * (real h - 100 - 100)) 200)"

definition fair :: "(nat \<Rightarrow> real) \<Rightarrow> nat \<Rightarrow> nat \<Rightarrow> bool" where
  "fair rnd w h = (\<forall>k. \<exists>j. lands rnd w h (k + 2 * j))"

text \<open>
  The invariant of the frame loop: the scheduled callbacks are exactly the one that
  \<open>rafId\<close> names, and none when \<open>rafId\<close> is \<open>null\<close>.
\<close>

definition loop_inv :: "gallery \<Rightarrow> bool" where
  "loop_inv st =
    (case rafId st of None \<Rightarrow> pending st = [] | Some h \<Rightarrow> h \<noteq> 0 \<and> pending st = [h])"

section \<open>Concrete inputs\<close>

definition rnd_zero :: "nat \<Rightarrow> real" where
  "rnd_zero k = 0"

definition no_options :: options where
  "no_options =
    \<lparr>opt_images = None, opt_count = None, opt_size = None, opt_opacity = None,
     opt_blur = None, opt_driftSpeed = None, opt_mouseInfluence = None,
     opt_mobileScrollInfluence = None, opt_container = None, opt_zIndex = None\<rparr>"

definition three_images :: options where
  "three_images =
    no_options\<lparr>opt_images := Some [''a.jpg'', ''b.jpg'', ''c.jpg''], opt_count := Some (Num 3)\<rparr>"


definition all_zero :: options where
  "all_zero =
    \<lparr>opt_images = None, opt_count = Some (Num 0), opt_size = Some (Num 0),
     opt_opacity = Some (Num 0), opt_blur = Some (Num 0), opt_driftSpeed = Some (Num 0),
     opt_mouseInfluence = Some (Num 0), opt_mobileScrollInfluence = Some (Num 0),
     opt_container = None, opt_zIndex = Some (Num 0)\<rparr>"



section \<open>The frame update of one particle\<close>

lemma js_mul_minus_one: "js_mul v (Num (- 1)) = js_neg v"
  by (cases v) (simp_all add: signed_inf_def)

lemma velocityX_animate_photo:
  "velocityX (animate_photo st p i) =
     (if js_lt (js_add (baseX p) (velocityX p)) (Num 50) \<or>
         js_gt (js_add (baseX p) (velocityX p)) (js_sub (Num (real (innerWidth st))) (Num 50))
      then js_neg (velocityX p) else velocityX p)"
  by (simp add: animate_photo_def Let_def js_mul_minus_one)

lemma velocityY_animate_photo:
  "velocityY (animate_photo st p i) =
     (if js_lt (js_add (baseY p) (velocityY p)) (Num 50) \<or>
         js_gt (js_add (baseY p) (velocityY p)) (js_sub (Num (real (innerHeight st))) (Num 50))
      then js_neg (velocityY p) else velocityY p)"
  by (simp add: animate_photo_def Let_def js_mul_minus_one)

lemma baseX_animate_photo:
  "baseX (animate_photo st p i) = bounce (innerWidth st) (js_add (baseX p) (velocityX p))"
  by (simp add: animate_photo_def Let_def bounce_def)

lemma baseY_animate_photo:
  "baseY (animate_photo st p i) = bounce (innerHeight st) (js_add (baseY p) (velocityY p))"
  by (simp add: animate_photo_def Let_def bounce_def)

lemma src_animate_photo: "src (element (animate_photo st p i)) = src (element p)"
  by (simp add: animate_photo_def Let_def)


lemma translate_desktop:
  "\<not> isMobile st \<Longrightarrow> translate (element (animate_photo st p i)) =
     Some (let bx = baseX (animate_photo st p i); by = baseY (animate_photo st p i);
               dx = js_sub bx (Num (mouseX st));
               dy = js_sub by (Num (mouseY st));
               distance = Math_sqrt (js_add (js_mul dx dx) (js_mul dy dy))
           in if js_lt distance (Num 300) then
                (js_add bx (js_mul (js_mul (js_mul (js_div dx distance)
                     (js_mul (js_sub (Num 1) (js_div distance (Num 300))) (Num 30)))
                     (mouseInfluence (config st))) (Num 100)),
                 js_add by (js_mul (js_mul (js_mul (js_div dy distance)
                     (js_mul (js_sub (Num 1) (js_div distance (Num 300))) (Num 30)))
                     (mouseInfluence (config st))) (Num 100)))
              else (bx, by))"
  by (simp add: animate_photo_def Let_def)

subsection \<open>The bounce\<close>


lemma add_not_NaN: "is_finite a \<Longrightarrow> v \<noteq> NaN \<Longrightarrow> js_add a v \<noteq> NaN"
  by (cases a; cases v) simp_all

lemma js_neg_not_NaN: "v \<noteq> NaN \<Longrightarrow> js_neg v \<noteq> NaN"
  by (cases v) simp_all


lemma photos_animate:
  "photos (animate st) =
     map (\<lambda>(index, p). animate_photo st p index) (zip [0 ..< length (photos st)] (photos st))"
  by (simp add: animate_def requestAnimationFrame_def Let_def)










subsection \<open>The influence of the pointer\<close>









subsection \<open>The influence of the scroll position\<close>



section \<open>Construction\<close>

text \<open>
  Claim C9. For each of the eight numeric options, the value 0 passed to the constructor
  is replaced by the default of the option.
\<close>

theorem zero_option_takes_default:
  "(opt_count opts = Some (Num 0) \<longrightarrow> count (constructor_config opts) = Num 6) \<and>
   (opt_size opts = Some (Num 0) \<longrightarrow> sizePx (constructor_config opts) = Num 70) \<and>
   (opt_opacity opts = Some (Num 0) \<longrightarrow> opacity (constructor_config opts) = Num 0.25) \<and>
   (opt_blur opts = Some (Num 0) \<longrightarrow> blur (constructor_config opts) = Num 1) \<and>
   (opt_driftSpeed opts = Some (Num 0) \<longrightarrow> driftSpeed (constructor_config opts) = Num 0.3) \<and>
   (opt_mouseInfluence opts = Some (Num 0) \<longrightarrow>
      mouseInfluence (constructor_config opts) = Num 0.05) \<and>
   (opt_mobileScrollInfluence opts = Some (Num 0) \<longrightarrow>
      mobileScrollInfluence (constructor_config opts) = Num 0.02) \<and>
   (opt_zIndex opts = Some (Num 0) \<longrightarrow> zIndex (constructor_config opts) = Num (- 1))"
  by (simp add: constructor_config_def or_default_def)

theorem zero_option_takes_default_witness:
  "opt_count all_zero = Some (Num 0) \<and> count (constructor_config all_zero) = Num 6 \<and>
   opt_size all_zero = Some (Num 0) \<and> sizePx (constructor_config all_zero) = Num 70 \<and>
   opt_opacity all_zero = Some (Num 0) \<and> opacity (constructor_config all_zero) = Num 0.25 \<and>
   opt_blur all_zero = Some (Num 0) \<and> blur (constructor_config all_zero) = Num 1 \<and>
   opt_driftSpeed all_zero = Some (Num 0) \<and>
     driftSpeed (constructor_config all_zero) = Num 0.3 \<and>
   opt_mouseInfluence all_zero = Some (Num 0) \<and>
     mouseInfluence (constructor_config all_zero) = Num 0.05 \<and>
   opt_mobileScrollInfluence all_zero = Some (Num 0) \<and>
     mobileScrollInfluence (constructor_config all_zero) = Num 0.02 \<and>
   opt_zIndex all_zero = Some (Num 0) \<and> zIndex (constructor_config all_zero) = Num (- 1)"
  using zero_option_takes_default[of all_zero] by (simp add: all_zero_def)

subsection \<open>The placement loop returns on a fair sequence\<close>

lemma random_position_returns:
  assumes "lands rnd (innerWidth st) (innerHeight st) (rng st + 2 * j)"
  shows "\<exists>x y r. random_position rnd st = Some (x, y, st\<lparr>rng := r\<rparr>)"
  using assms
proof (induction j arbitrary: st)
  case 0
  then show ?case
    by (subst random_position.simps) (auto simp: lands_def Let_def)
next
  case (Suc j)
  show ?case
  proof (cases "lands rnd (innerWidth st) (innerHeight st) (rng st)")
    case True
    then show ?thesis
      by (subst random_position.simps) (auto simp: lands_def Let_def)
  next
    case False
    let ?next = "st\<lparr>rng := rng st + 2\<rparr>"
    from Suc.prems have "lands rnd (innerWidth ?next) (innerHeight ?next) (rng ?next + 2 * j)"
      by (simp add: add.assoc)
    from Suc.IH[OF this] obtain x y r
      where "random_position rnd ?next = Some (x, y, ?next\<lparr>rng := r\<rparr>)"
      by blast
    with False show ?thesis
      by (subst random_position.simps) (auto simp: lands_def Let_def)
  qed
qed

lemma createPhoto_returns:
  assumes "fair rnd (innerWidth st) (innerHeight st)"
  shows "\<exists>p r. createPhoto rnd st index = Some (p, st\<lparr>rng := r\<rparr>) \<and>
           src (element p) = image_at (config st) index"
proof -
  from assms obtain j where "lands rnd (innerWidth st) (innerHeight st) (rng st + 2 * j)"
    unfolding fair_def by blast
  from random_position_returns[OF this] obtain x y r
    where "random_position rnd st = Some (x, y, st\<lparr>rng := r\<rparr>)" by blast
  then show ?thesis by (auto simp: createPhoto_def Let_def)
qed

lemma createPhotos_loop_returns:
  assumes "i < m \<Longrightarrow> fair rnd (innerWidth st) (innerHeight st)"
  shows "\<exists>ps r. createPhotos_loop rnd (Num (real m)) i st =
             Some (st\<lparr>photos := photos st @ ps, children := children st @ [i ..< m],
                      rng := r\<rparr>) \<and>
           map (\<lambda>p. src (element p)) ps = map (image_at (config st)) [i ..< m]"
  using assms
proof (induction "m - i" arbitrary: i st)
  case 0
  then have stop: "\<not> i < m" by simp
  then have "createPhotos_loop rnd (Num (real m)) i st = Some st"
    by (subst createPhotos_loop.simps) simp
  moreover have "st = st\<lparr>photos := photos st @ [], children := children st @ [i ..< m],
      rng := rng st\<rparr>"
    using stop by simp
  ultimately show ?case using stop
    by (metis list.simps(8) upt_rec)
next
  case (Suc d)
  then have lt: "i < m" by simp
  with Suc.prems have f: "fair rnd (innerWidth st) (innerHeight st)" by simp
  from createPhoto_returns[OF f, of i] obtain p r where
    cp: "createPhoto rnd st i = Some (p, st\<lparr>rng := r\<rparr>)" and
    sp: "src (element p) = image_at (config st) i"
    by blast
  let ?next = "st\<lparr>rng := r, photos := photos st @ [p], children := children st @ [i]\<rparr>"
  have d: "d = m - (i + 1)" using Suc.hyps(2) by simp
  have "\<exists>ps r. createPhotos_loop rnd (Num (real m)) (i + 1) ?next =
             Some (?next\<lparr>photos := photos ?next @ ps,
                      children := children ?next @ [i + 1 ..< m], rng := r\<rparr>) \<and>
           map (\<lambda>p. src (element p)) ps = map (image_at (config ?next)) [i + 1 ..< m]"
    by (rule Suc.hyps(1)[OF d]) (simp add: f)
  then obtain ps r' where
    rec: "createPhotos_loop rnd (Num (real m)) (i + 1) ?next =
             Some (?next\<lparr>photos := photos ?next @ ps,
                      children := children ?next @ [i + 1 ..< m], rng := r'\<rparr>)" and
    srcs: "map (\<lambda>p. src (element p)) ps = map (image_at (config ?next)) [i + 1 ..< m]"
    by blast
  have upt: "[i ..< m] = i # [i + 1 ..< m]" using lt by (simp add: upt_rec)
  have "createPhotos_loop rnd (Num (real m)) i st =
          Some (st\<lparr>photos := photos st @ (p # ps), children := children st @ [i ..< m],
                   rng := r'\<rparr>)"
    using lt cp rec by (subst createPhotos_loop.simps) (simp add: upt)
  moreover have "map (\<lambda>p. src (element p)) (p # ps) = map (image_at (config st)) [i ..< m]"
    using sp srcs by (simp add: upt)
  ultimately show ?case by blast
qed

lemma Math_min_nat: "Math_min (Num (real c)) (Num (real n)) = Num (real (min c n))"
  by (simp add: Math_min_def min_def)

lemma srcs_animate:
  "map (\<lambda>p. src (element p)) (photos (animate st)) = map (\<lambda>p. src (element p)) (photos st)"
  by (auto simp: photos_animate src_animate_photo intro!: nth_equalityI)

lemma construct_returns:
  assumes "count (constructor_config opts) = Num (real c)"
    and "images (constructor_config opts) = imgs"
    and "imgs = [] \<or> fair rnd w h"
  shows "\<exists>st. construct rnd w h opts = Some st \<and>
           length (photos st) = min c (length imgs) \<and>
           children st = [0 ..< min c (length imgs)] \<and>
           map (\<lambda>p. src (element p)) (photos st) =
             map (\<lambda>i. Some (imgs ! (i mod length imgs))) [0 ..< min c (length imgs)]"
proof -
  let ?m = "min c (length imgs)"
  let ?A = "\<lparr>config = constructor_config opts, isMobile = matchMedia_mobile w,
       mouseX = real w / 2, mouseY = real h / 2, scrollY = 0, photos = [], rafId = None,
       mounted = True, children = [], innerWidth = w, innerHeight = h, listeners = [],
       pending = [], lastHandle = 0, rng = 0\<rparr>"
  have f: "0 < ?m \<Longrightarrow> fair rnd (innerWidth ?A) (innerHeight ?A)"
    using assms(3) by auto
  from createPhotos_loop_returns[of 0 ?m rnd ?A, OF f] obtain ps r where
    loop: "createPhotos_loop rnd (Num (real ?m)) 0 ?A =
             Some (?A\<lparr>photos := photos ?A @ ps, children := children ?A @ [0 ..< ?m],
                     rng := r\<rparr>)"
    and srcs: "map (\<lambda>p. src (element p)) ps = map (image_at (config ?A)) [0 ..< ?m]"
    by blast
  let ?B = "?A\<lparr>photos := ps, children := [0 ..< ?m], rng := r\<rparr>"
  have cp: "createPhotos rnd ?A = Some ?B"
    using loop by (simp add: createPhotos_def assms(1,2) Math_min_nat)
  let ?C = "if \<not> isMobile ?B then setupMouseTracking ?B else setupScrollTracking ?B"
  let ?D = "addEventListener Window ''resize'' ResizeArrow (animate ?C)"
  have c: "construct rnd w h opts = Some ?D"
    using cp by (simp add: construct_def init_def Let_def)
  have ph2: "photos ?C = ps" "children ?C = [0 ..< ?m]"
    by (simp_all add: setupMouseTracking_def setupScrollTracking_def addEventListener_def)
  have ph: "photos ?D = photos (animate ?C)" "children ?D = children ?C"
    by (simp_all add: addEventListener_def animate_def requestAnimationFrame_def Let_def
        del: gallery.simps)
  have "map (image_at (config ?A)) [0 ..< ?m] =
        map (\<lambda>i. Some (imgs ! (i mod length imgs))) [0 ..< ?m]"
    by (rule map_cong) (auto simp: image_at_def assms(2))
  with srcs have srcs': "map (\<lambda>p. src (element p)) (photos ?D) =
      map (\<lambda>i. Some (imgs ! (i mod length imgs))) [0 ..< ?m]"
    by (simp only: ph srcs_animate ph2)
  have "length (photos ?D) = ?m"
    using arg_cong[OF srcs', of length] by simp
  with c srcs' ph(2) ph2(2) show ?thesis by metis
qed

lemma isInCenterZone_iff:
  assumes "0 < r"
  shows "isInCenterZone w h x y r \<longleftrightarrow> (x - real w / 2)\<^sup>2 + (y - real h / 2)\<^sup>2 < r\<^sup>2"
proof -
  have "r = sqrt (r\<^sup>2)" using assms by simp
  then have "sqrt ((x - real w / 2)\<^sup>2 + (y - real h / 2)\<^sup>2) < r \<longleftrightarrow>
             sqrt ((x - real w / 2)\<^sup>2 + (y - real h / 2)\<^sup>2) < sqrt (r\<^sup>2)" by simp
  also have "\<dots> \<longleftrightarrow> (x - real w / 2)\<^sup>2 + (y - real h / 2)\<^sup>2 < r\<^sup>2"
    by (rule real_sqrt_less_iff)
  finally show ?thesis by (simp add: isInCenterZone_def Let_def)
qed

lemma fair_rnd_zero: "fair rnd_zero 1000 800"
proof -
  have "lands rnd_zero 1000 800 k" for k
    by (simp add: lands_def rnd_zero_def isInCenterZone_iff power2_eq_square)
  then show ?thesis unfolding fair_def by blast
qed

lemma three_images_config:
  "count (constructor_config three_images) = Num (real 3)"
  "images (constructor_config three_images) = [''a.jpg'', ''b.jpg'', ''c.jpg'']"
  by (simp_all add: constructor_config_def three_images_def no_options_def or_default_def)

lemma three_images_constructed:
  "\<exists>st. construct rnd_zero 1000 800 three_images = Some st"
  using construct_returns[OF three_images_config, of rnd_zero 1000 800] fair_rnd_zero by auto




subsection \<open>The placement loop never returns in a small window\<close>

lemma random_position_lands:
  assumes "random_position rnd st = Some res"
  shows "\<exists>k. lands rnd (innerWidth st) (innerHeight st) k"
proof (rule random_position.raw_induct
    [where P = "\<lambda>rnd st res. \<exists>k. lands rnd (innerWidth st) (innerHeight st) k", OF _ assms])
  fix f :: "(nat \<Rightarrow> real) \<Rightarrow> gallery \<Rightarrow> (real \<times> real \<times> gallery) option" and rnd st res
  assume IH: "\<And>rnd st res. f rnd st = Some res \<Longrightarrow>
                 \<exists>k. lands rnd (innerWidth st) (innerHeight st) k"
    and body: "(let x = 100 + rnd (rng st) * (real (innerWidth st) - 100 - 100);
          y = 100 + rnd (rng st + 1) * (real (innerHeight st) - 100 - 100);
          st' = st\<lparr>rng := rng st + 2\<rparr>
      in if isInCenterZone (innerWidth st) (innerHeight st) x y 200
         then f rnd st' else Some (x, y, st')) = Some res"
  show "\<exists>k. lands rnd (innerWidth st) (innerHeight st) k"
  proof (cases "lands rnd (innerWidth st) (innerHeight st) (rng st)")
    case True
    then show ?thesis by blast
  next
    case False
    with body have "f rnd (st\<lparr>rng := rng st + 2\<rparr>) = Some res"
      by (simp add: Let_def lands_def)
    from IH[OF this] show ?thesis by simp
  qed
qed

lemma square_bound:
  fixes a :: real
  assumes "- c \<le> a" "a \<le> c"
  shows "a\<^sup>2 \<le> c\<^sup>2"
  using assms by (simp add: abs_le_square_iff[symmetric] abs_le_iff)

lemma small_window_never_lands:
  assumes "0 \<le> rnd k" "rnd k < 1" "0 \<le> rnd (k + 1)" "rnd (k + 1) < 1"
  shows "\<not> lands rnd 320 480 k"
proof -
  have "(100 + rnd k * 120 - 160)\<^sup>2 \<le> 60\<^sup>2"
    using assms(1,2) by (intro square_bound) simp_all
  moreover have "(100 + rnd (k + 1) * 280 - 240)\<^sup>2 \<le> 140\<^sup>2"
    using assms(3,4) by (intro square_bound) simp_all
  ultimately show ?thesis
    by (simp add: lands_def isInCenterZone_iff)
qed

text \<open>
  In a window of 320 by 480 every position that \<open>createPhoto\<close> can draw lies in the
  centre zone: with one image or more and a positive count, the constructor does not
  return, whatever \<open>Math.random\<close> gives.
\<close>

lemma small_window_construct_hangs:
  assumes rnd: "\<And>k. 0 \<le> rnd k \<and> rnd k < 1"
    and imgs: "images (constructor_config opts) \<noteq> []"
    and cnt: "js_lt (Num 0) (count (constructor_config opts))"
  shows "construct rnd 320 480 opts = None"
proof -
  let ?A = "\<lparr>config = constructor_config opts, isMobile = matchMedia_mobile 320,
       mouseX = real 320 / 2, mouseY = real 480 / 2, scrollY = 0, photos = [], rafId = None,
       mounted = True, children = [], innerWidth = 320, innerHeight = 480, listeners = [],
       pending = [], lastHandle = 0, rng = 0\<rparr>"
  have "random_position rnd ?A = None"
  proof (cases "random_position rnd ?A")
    case (Some res)
    from random_position_lands[OF Some] small_window_never_lands rnd show ?thesis by auto
  qed simp
  then have "createPhoto rnd ?A 0 = None" by (simp add: createPhoto_def)
  moreover have "js_lt (Num (real 0))
      (Math_min (count (constructor_config opts))
                (Num (real (length (images (constructor_config opts))))))"
    using cnt imgs by (cases "count (constructor_config opts)") (simp_all add: Math_min_def)
  ultimately have "createPhotos rnd ?A = None"
    by (subst createPhotos_def, simp only: Let_def, subst createPhotos_loop.simps)
       (simp del: of_nat_0)
  then show ?thesis by (simp add: construct_def init_def)
qed

section \<open>The frame loop\<close>

subsection \<open>What a constructor that returns has done\<close>

lemma random_position_frame:
  assumes "random_position rnd st = Some res"
  shows "\<exists>x y r. res = (x, y, st\<lparr>rng := r\<rparr>)"
proof (rule random_position.raw_induct
    [where P = "\<lambda>rnd st res. \<exists>x y r. res = (x, y, st\<lparr>rng := r\<rparr>)", OF _ assms])
  fix f :: "(nat \<Rightarrow> real) \<Rightarrow> gallery \<Rightarrow> (real \<times> real \<times> gallery) option" and rnd st res
  assume IH: "\<And>rnd st res. f rnd st = Some res \<Longrightarrow> \<exists>x y r. res = (x, y, st\<lparr>rng := r\<rparr>)"
    and body: "(let x = 100 + rnd (rng st) * (real (innerWidth st) - 100 - 100);
          y = 100 + rnd (rng st + 1) * (real (innerHeight st) - 100 - 100);
          st' = st\<lparr>rng := rng st + 2\<rparr>
      in if isInCenterZone (innerWidth st) (innerHeight st) x y 200
         then f rnd st' else Some (x, y, st')) = Some res"
  show "\<exists>x y r. res = (x, y, st\<lparr>rng := r\<rparr>)"
  proof (cases "lands rnd (innerWidth st) (innerHeight st) (rng st)")
    case False
    with body have "f rnd (st\<lparr>rng := rng st + 2\<rparr>) = Some res"
      by (simp add: Let_def lands_def)
    from IH[OF this] show ?thesis by auto
  next
    case True
    with body show ?thesis by (auto simp: Let_def lands_def)
  qed
qed

lemma createPhoto_frame:
  assumes "createPhoto rnd st i = Some (p, st')"
  shows "\<exists>r. st' = st\<lparr>rng := r\<rparr>"
proof -
  from assms obtain res where res: "random_position rnd st = Some res"
    by (auto simp: createPhoto_def split: option.splits)
  from random_position_frame[OF res] obtain x y r where "res = (x, y, st\<lparr>rng := r\<rparr>)"
    by blast
  with assms res show ?thesis by (auto simp: createPhoto_def Let_def)
qed

lemma createPhotos_loop_frame:
  assumes "createPhotos_loop rnd ic i st = Some st'"
  shows "\<exists>ps cs r. st' = st\<lparr>photos := ps, children := cs, rng := r\<rparr>"
proof (rule createPhotos_loop.raw_induct
    [where P = "\<lambda>rnd ic i st st'. \<exists>ps cs r. st' = st\<lparr>photos := ps, children := cs, rng := r\<rparr>",
     OF _ assms])
  fix f :: "(nat \<Rightarrow> real) \<Rightarrow> jsnum \<Rightarrow> nat \<Rightarrow> gallery \<Rightarrow> gallery option"
    and rnd ic i st st'
  assume IH: "\<And>rnd ic i st st'. f rnd ic i st = Some st' \<Longrightarrow>
                 \<exists>ps cs r. st' = st\<lparr>photos := ps, children := cs, rng := r\<rparr>"
    and body: "(if js_lt (Num (real i)) ic
      then case createPhoto rnd st i of None \<Rightarrow> None
           | Some (p, st1) \<Rightarrow>
               f rnd ic (i + 1)
                 (st1\<lparr>photos := photos st1 @ [p], children := children st1 @ [i]\<rparr>)
      else Some st) = Some st'"
  show "\<exists>ps cs r. st' = st\<lparr>photos := ps, children := cs, rng := r\<rparr>"
  proof (cases "js_lt (Num (real i)) ic")
    case False
    with body have "st' = st" by simp
    then have "st' = st\<lparr>photos := photos st, children := children st, rng := rng st\<rparr>"
      by simp
    then show ?thesis by blast
  next
    case True
    with body obtain p st1 where cp: "createPhoto rnd st i = Some (p, st1)"
      and rec: "f rnd ic (i + 1)
                  (st1\<lparr>photos := photos st1 @ [p], children := children st1 @ [i]\<rparr>) = Some st'"
      by (auto split: option.splits)
    from createPhoto_frame[OF cp] obtain r where "st1 = st\<lparr>rng := r\<rparr>" by blast
    with IH[OF rec] show ?thesis by auto
  qed
qed

lemma createPhotos_frame:
  assumes "createPhotos rnd st = Some st'"
  shows "\<exists>ps cs r. st' = st\<lparr>photos := ps, children := cs, rng := r\<rparr>"
  using assms createPhotos_loop_frame by (simp add: createPhotos_def Let_def)

lemma construct_shape:
  assumes "construct rnd w h opts = Some st"
  shows "rafId st = Some 1 \<and> pending st = [1] \<and> mounted st \<and>
         listeners st = [if matchMedia_mobile w then (Window, ''scroll'', ScrollArrow)
                         else (Document, ''mousemove'', MouseMoveArrow),
                         (Window, ''resize'', ResizeArrow)] \<and>
         innerWidth st = w \<and> innerHeight st = h \<and> config st = constructor_config opts \<and>
         isMobile st = matchMedia_mobile w"
proof -
  let ?A = "\<lparr>config = constructor_config opts, isMobile = matchMedia_mobile w,
       mouseX = real w / 2, mouseY = real h / 2, scrollY = 0, photos = [], rafId = None,
       mounted = False, children = [], innerWidth = w, innerHeight = h, listeners = [],
       pending = [], lastHandle = 0, rng = 0\<rparr>"
  from assms obtain st1 where c: "createPhotos rnd (?A\<lparr>mounted := True\<rparr>) = Some st1"
    by (auto simp: construct_def init_def split: option.splits)
  from createPhotos_frame[OF c] obtain ps cs r where
    st1: "st1 = ?A\<lparr>mounted := True, photos := ps, children := cs, rng := r\<rparr>" by auto
  from assms c have "st = addEventListener Window ''resize'' ResizeArrow
       (animate (if \<not> isMobile st1 then setupMouseTracking st1 else setupScrollTracking st1))"
    by (simp add: construct_def init_def Let_def)
  then show ?thesis
    by (simp add: st1 addEventListener_def animate_def requestAnimationFrame_def Let_def
        setupMouseTracking_def setupScrollTracking_def)
qed

subsection \<open>One callback at a time\<close>

lemma loop_inv_animate: "pending st = [] \<Longrightarrow> loop_inv (animate st)"
  by (simp add: loop_inv_def animate_def requestAnimationFrame_def Let_def)

lemma pending_animate: "pending (animate st) = pending st @ [lastHandle st + 1]"
  by (simp add: animate_def requestAnimationFrame_def Let_def)

lemma pause_stops: "loop_inv st \<Longrightarrow> rafId (pause st) = None \<and> pending (pause st) = []"
  by (auto simp: loop_inv_def pause_def cancelAnimationFrame_def split: option.splits)

lemma loop_inv_pause: "loop_inv st \<Longrightarrow> loop_inv (pause st)"
  using pause_stops[of st] by (simp add: loop_inv_def)

lemma running_iff: "loop_inv st \<Longrightarrow> rafId_truthy st \<longleftrightarrow> pending st \<noteq> []"
  by (auto simp: loop_inv_def rafId_truthy_def split: option.splits)

lemma loop_inv_resume:
  assumes "loop_inv st"
  shows "loop_inv (resume st)"
proof (cases "rafId_truthy st")
  case True
  then show ?thesis using assms by (simp add: resume_def)
next
  case False
  with assms have "pending st = []" by (simp add: running_iff)
  then show ?thesis using False by (simp add: resume_def loop_inv_animate)
qed

lemma loop_inv_run_frame:
  assumes "loop_inv st"
  shows "loop_inv (run_frame st)"
proof (cases "rafId st")
  case None
  with assms have "pending st = []" by (simp add: loop_inv_def)
  then have "run_frame st = st" by (simp add: run_frame_def)
  with assms show ?thesis by simp
next
  case (Some h)
  with assms have "pending st = [h]" by (simp add: loop_inv_def)
  then have "run_frame st = animate (st\<lparr>pending := []\<rparr>)" by (simp add: run_frame_def)
  then show ?thesis by (simp add: loop_inv_animate)
qed

lemma loop_inv_step: "loop_inv st \<Longrightarrow> loop_inv (step e st)"
  by (cases e) (simp_all add: loop_inv_pause loop_inv_resume loop_inv_run_frame)

lemma loop_inv_fold: "loop_inv st \<Longrightarrow> loop_inv (fold step evs st)"
  by (induction evs arbitrary: st) (simp_all add: loop_inv_step)

lemma loop_inv_construct: "construct rnd w h opts = Some st \<Longrightarrow> loop_inv st"
  using construct_shape[of rnd w h opts st] by (simp add: loop_inv_def)

lemma pause_idem: "pause (pause st) = pause st"
  by (auto simp: pause_def cancelAnimationFrame_def split: option.splits)

text \<open>
  Claim C7. After a constructor that has returned and any sequence of calls of \<open>pause\<close>
  and \<open>resume\<close> and of frames that the browser runs, at most one animation frame
  callback is scheduled; a second \<open>pause\<close> changes nothing; after \<open>pause\<close> no callback is
  scheduled; \<open>resume\<close> changes nothing while a callback is scheduled, and is a frame
  update otherwise; and \<open>resume\<close> after \<open>pause\<close> is one frame update that leaves exactly
  one callback scheduled.
\<close>

theorem single_frame_callback:
  assumes "construct rnd w h opts = Some st0"
  shows "let s = run evs st0
         in length (pending s) \<le> 1 \<and>
            pause (pause s) = pause s \<and>
            pending (pause s) = [] \<and>
            (if pending s = [] then resume s = animate s else resume s = s) \<and>
            resume (pause s) = animate (pause s) \<and>
            length (pending (resume (pause s))) = 1"
proof -
  have inv: "loop_inv (run evs st0)"
    using loop_inv_construct[OF assms] by (simp add: run_def loop_inv_fold)
  have p: "rafId (pause (run evs st0)) = None" "pending (pause (run evs st0)) = []"
    using pause_stops[OF inv] by simp_all
  have "length (pending (run evs st0)) \<le> 1"
    using inv by (auto simp: loop_inv_def split: option.splits)
  moreover have "resume (pause (run evs st0)) = animate (pause (run evs st0))"
    using p by (simp add: resume_def rafId_truthy_def)
  moreover have "if pending (run evs st0) = [] then resume (run evs st0) = animate (run evs st0)
                 else resume (run evs st0) = run evs st0"
    using running_iff[OF inv] by (simp add: resume_def)
  ultimately show ?thesis
    using p by (simp add: Let_def pause_idem pending_animate)
qed

theorem single_frame_callback_witness:
  "\<exists>st0. construct rnd_zero 1000 800 three_images = Some st0 \<and>
     (let s = run [Pause, Pause, Resume, Frame, Resume] st0
      in length (pending s) \<le> 1 \<and>
         pause (pause s) = pause s \<and>
         pending (pause s) = [] \<and>
         (if pending s = [] then resume s = animate s else resume s = s) \<and>
         resume (pause s) = animate (pause s) \<and>
         length (pending (resume (pause s))) = 1)"
proof -
  from three_images_constructed
  obtain st0 where st0: "construct rnd_zero 1000 800 three_images = Some st0" by blast
  from single_frame_callback[OF st0, of "[Pause, Pause, Resume, Frame, Resume]"] st0
  show ?thesis by blast
qed

subsection \<open>Teardown\<close>

lemma destroy_after_construct:
  assumes "construct rnd w h opts = Some st"
  shows "listeners (destroy st) = listeners st \<and>
         (Window, ''resize'', ResizeArrow) \<in> set (listeners (destroy st)) \<and>
         pending (destroy st) = [] \<and> \<not> mounted (destroy st)"
  using construct_shape[OF assms]
  by (simp add: destroy_def removeEventListener_def cancelAnimationFrame_def Let_def)

text \<open>
  Claim C3, on the code. After \<open>new FloatingGallery({images: [a, b, c], count: 3})\<close> in a
  window of 1000 by 800 and \<open>destroy()\<close>, no animation frame callback is scheduled and
  the container is out of the document, but the arrow function that \<open>init\<close> registered for
  \<open>resize\<close> is still registered: \<open>destroy\<close> asks to remove \<open>this.handleResize\<close>, another
  function object, which was never registered.
\<close>

theorem destroy_leaves_resize_listener:
  "map_option (listeners \<circ> destroy) (construct rnd_zero 1000 800 three_images) =
     Some [(Document, ''mousemove'', MouseMoveArrow), (Window, ''resize'', ResizeArrow)] \<and>
   map_option (pending \<circ> destroy) (construct rnd_zero 1000 800 three_images) = Some [] \<and>
   map_option (mounted \<circ> destroy) (construct rnd_zero 1000 800 three_images) = Some False"
proof -
  from three_images_constructed
  obtain st0 where st0: "construct rnd_zero 1000 800 three_images = Some st0" by blast
  from destroy_after_construct[OF st0] construct_shape[OF st0] st0
  show ?thesis by (simp add: matchMedia_mobile_def)
qed

section \<open>The particles of a constructed gallery\<close>

text \<open>
  The particles that the constructor creates have a finite base position, and a velocity
  that is not NaN when the drift speed of the configuration is finite; a frame update
  keeps both. So the hypothesis of the invariant of the base position holds for every
  gallery that was constructed with a finite drift speed.
\<close>

lemma bounce_finite: "b \<noteq> NaN \<Longrightarrow> is_finite (bounce w b)"
  by (cases b) (auto simp: bounce_def js_sub_def js_gt_def Math_max_def Math_min_def)

lemma animate_photo_drifting:
  assumes "drifting p"
  shows "drifting (animate_photo st p i)"
  using assms
  by (simp add: drifting_def baseX_animate_photo baseY_animate_photo bounce_finite add_not_NaN
      velocityX_animate_photo velocityY_animate_photo js_neg_not_NaN)

lemma animate_drifting:
  "list_all drifting (photos st) \<Longrightarrow> list_all drifting (photos (animate st))"
  by (auto simp: list_all_iff photos_animate animate_photo_drifting dest!: set_zip_rightD)

lemma createPhoto_drifting:
  assumes "createPhoto rnd st i = Some (p, st')" and "is_finite (driftSpeed (config st))"
  shows "drifting p"
proof -
  from assms(2) obtain r where "driftSpeed (config st) = Num r"
    by (cases "driftSpeed (config st)") simp_all
  with assms(1) show ?thesis
    by (auto simp: createPhoto_def Let_def drifting_def split: option.splits)
qed

lemma createPhotos_loop_drifting:
  assumes "createPhotos_loop rnd ic i st = Some st'"
  shows "is_finite (driftSpeed (config st)) \<longrightarrow> list_all drifting (photos st) \<longrightarrow>
         list_all drifting (photos st')"
proof (rule createPhotos_loop.raw_induct
    [where P = "\<lambda>rnd ic i st st'. is_finite (driftSpeed (config st)) \<longrightarrow>
        list_all drifting (photos st) \<longrightarrow> list_all drifting (photos st')",
     OF _ assms])
  fix f :: "(nat \<Rightarrow> real) \<Rightarrow> jsnum \<Rightarrow> nat \<Rightarrow> gallery \<Rightarrow> gallery option"
    and rnd ic i st st'
  assume IH: "\<And>rnd ic i st st'. f rnd ic i st = Some st' \<Longrightarrow>
                 is_finite (driftSpeed (config st)) \<longrightarrow> list_all drifting (photos st) \<longrightarrow>
                 list_all drifting (photos st')"
    and body: "(if js_lt (Num (real i)) ic
      then case createPhoto rnd st i of None \<Rightarrow> None
           | Some (p, st1) \<Rightarrow>
               f rnd ic (i + 1)
                 (st1\<lparr>photos := photos st1 @ [p], children := children st1 @ [i]\<rparr>)
      else Some st) = Some st'"
  show "is_finite (driftSpeed (config st)) \<longrightarrow> list_all drifting (photos st) \<longrightarrow>
        list_all drifting (photos st')"
  proof (cases "js_lt (Num (real i)) ic")
    case False
    with body show ?thesis by simp
  next
    case True
    with body obtain p st1 where cp: "createPhoto rnd st i = Some (p, st1)"
      and rec: "f rnd ic (i + 1)
                  (st1\<lparr>photos := photos st1 @ [p], children := children st1 @ [i]\<rparr>) = Some st'"
      by (auto split: option.splits)
    from createPhoto_frame[OF cp] obtain r where st1: "st1 = st\<lparr>rng := r\<rparr>" by blast
    show ?thesis
      using IH[OF rec] createPhoto_drifting[OF cp] by (simp add: st1)
  qed
qed

lemma construct_drifting:
  assumes "construct rnd w h opts = Some st"
    and "is_finite (driftSpeed (constructor_config opts))"
  shows "list_all drifting (photos st)"
proof -
  let ?A = "\<lparr>config = constructor_config opts, isMobile = matchMedia_mobile w,
       mouseX = real w / 2, mouseY = real h / 2, scrollY = 0, photos = [], rafId = None,
       mounted = True, children = [], innerWidth = w, innerHeight = h, listeners = [],
       pending = [], lastHandle = 0, rng = 0\<rparr>"
  from assms(1) obtain st1 where c: "createPhotos rnd ?A = Some st1"
    by (auto simp: construct_def init_def split: option.splits)
  then have d: "list_all drifting (photos st1)"
    using createPhotos_loop_drifting[of rnd _ 0 ?A st1] assms(2)
    by (simp add: createPhotos_def Let_def)
  let ?C = "if \<not> isMobile st1 then setupMouseTracking st1 else setupScrollTracking st1"
  have "photos ?C = photos st1"
    by (simp add: setupMouseTracking_def setupScrollTracking_def addEventListener_def)
  with d have "list_all drifting (photos (animate ?C))"
    by (intro animate_drifting) simp
  moreover from assms(1) c have "st = addEventListener Window ''resize'' ResizeArrow (animate ?C)"
    by (simp add: construct_def init_def Let_def)
  ultimately show ?thesis by (simp add: addEventListener_def)
qed

section \<open>The influence of the pointer on finite numbers\<close>

text \<open>
  On finite numbers and with the pointer off the particle, the transform of desktop mode
  is the formula of real arithmetic: the base position moved by the unit vector away from
  the pointer, scaled by \<open>(1 - d / 300) * 30 * mouseInfluence * 100\<close>.
\<close>

lemma desktop_influence_real:
  assumes "\<not> isMobile st"
    and "baseX (animate_photo st p i) = Num bx"
    and "baseY (animate_photo st p i) = Num by"
    and "mouseInfluence (config st) = Num mi"
    and "d = sqrt ((bx - mouseX st)\<^sup>2 + (by - mouseY st)\<^sup>2)"
    and "0 < d"
  shows "translate (element (animate_photo st p i)) =
     Some (if d < 300
           then (Num (bx + (bx - mouseX st) / d * (1 - d / 300) * 30 * mi * 100),
                 Num (by + (by - mouseY st) / d * (1 - d / 300) * 30 * mi * 100))
           else (Num bx, Num by))"
proof -
  have nn: "\<not> (bx - mouseX st) * (bx - mouseX st) + (by - mouseY st) * (by - mouseY st) < 0"
    by (simp add: not_less)
  have d': "sqrt ((bx - mouseX st) * (bx - mouseX st) + (by - mouseY st) * (by - mouseY st)) = d"
    by (simp add: assms(5) power2_eq_square)
  from assms(6) have "d \<noteq> 0" by simp
  then show ?thesis
    using assms(1-4) nn
    by (simp add: translate_desktop Let_def js_sub_def d' mult.assoc)
qed

end
